theory Spec2Isabelle
  imports Main
begin

section \<open>The Census sync task (\<open>src/prefect/tasks/census/census.py\<close>)\<close>

text \<open>
  \<open>CensusSyncTask.run\<close> validates a trigger URL with a regular expression, sends one
  POST to it, and then polls a status URL with GET requests until the reported status
  is no longer \<open>working\<close>.  Everything the method does to the outside (HTTP requests,
  sleeping, logging) is recorded here as a trace of events; every \<open>raise\<close> and every
  unhandled Python exception is a value of the type \<open>error\<close>.

  A Python \<open>str\<close> is modelled as a \<open>string\<close> whose characters are the code points below
  256.  Among those, the class \<open>\d\<close> of the \<open>re\<close> module contains exactly \<open>0\<close> to \<open>9\<close>.
\<close>

subsection \<open>Constants\<close>

definition MIN_WAIT_TIME :: int where
  "MIN_WAIT_TIME = 5"

definition DEFAULT_WAIT_TIME :: int where
  "DEFAULT_WAIT_TIME = 60"

subsection \<open>Python values: decoded JSON, exceptions, \<open>str\<close> of an integer\<close>

text \<open>
  What \<open>Response.json()\<close> returns.  A number with a fraction carries its literal; it is
  never inspected by the task.  An object is the list of its items; a decoded \<open>dict\<close>
  has each key once, and a key is looked up with \<open>map_of\<close>.
\<close>

datatype jvalue =
    JNull
  | JBool bool
  | JInt int
  | JFloat string
  | JString string
  | JArray "jvalue list"
  | JObject "(string \<times> jvalue) list"

text \<open>
  The exceptions that can leave \<open>run\<close>.  Every \<open>raise\<close> of the source raises a
  \<open>ValueError\<close> with a message.  The others are raised by Python itself: \<open>KeyError\<close> by
  \<open>d[k]\<close> on a \<open>dict\<close> without the key \<open>k\<close>; \<open>TypeError\<close> by \<open>v[k]\<close> on a value that is not
  a \<open>dict\<close>; \<open>AttributeError\<close> by \<open>v.keys()\<close> on a value that is not a \<open>dict\<close>; and
  \<open>JSONDecodeError\<close> by \<open>Response.json()\<close> on a body that is not JSON.
\<close>

datatype error =
    ValueError string
  | KeyError string
  | TypeError
  | AttributeError
  | JSONDecodeError

text \<open>\<open>str(n)\<close> for an integer, as the f-strings of the source format one.\<close>

fun str_nat :: "nat \<Rightarrow> string" where
  "str_nat n =
     (if n < 10 then [''0123456789'' ! n]
      else str_nat (n div 10) @ [''0123456789'' ! (n mod 10)])"

definition str_int :: "int \<Rightarrow> string" where
  "str_int i = (if i < 0 then CHR ''-'' # str_nat (nat (- i)) else str_nat (nat i))"

text \<open>
  \<open>str(v)\<close> for a decoded JSON value, as an f-string formats it.  The renderings of a
  float, a \<open>list\<close> and a \<open>dict\<close> are those of Python's \<open>repr\<close>, which is taken as the
  parameter \<open>repr\<close>.
\<close>

fun py_str :: "(jvalue \<Rightarrow> string) \<Rightarrow> jvalue \<Rightarrow> string" where
  "py_str repr JNull = ''None''"
| "py_str repr (JBool b) = (if b then ''True'' else ''False'')"
| "py_str repr (JInt i) = str_int i"
| "py_str repr (JString s) = s"
| "py_str repr v = repr v"

text \<open>\<open>v[k]\<close> with a string key \<open>k\<close>, and \<open>v.keys()\<close>.\<close>

fun getitem :: "jvalue \<Rightarrow> string \<Rightarrow> error + jvalue" where
  "getitem (JObject kvs) k =
     (case map_of kvs k of None \<Rightarrow> Inl (KeyError k) | Some v \<Rightarrow> Inr v)"
| "getitem v k = Inl TypeError"

fun keys :: "jvalue \<Rightarrow> error + string list" where
  "keys (JObject kvs) = Inr (map fst kvs)"
| "keys v = Inl AttributeError"

subsection \<open>The regular expression\<close>

text \<open>
  The fragment of \<open>re\<close> that the pattern of the source uses: a literal character, \<open>.\<close>
  (any character but the newline), \<open>\d\<close>, and a capturing group around a greedy star
  of one of these.  A pattern is a sequence of such items.
\<close>

datatype atom = Lit char | Any | Digit

datatype item = One atom | GroupStar atom

fun atom_matches :: "atom \<Rightarrow> char \<Rightarrow> bool" where
  "atom_matches (Lit x) c = (c = x)"
| "atom_matches Any c = (c \<noteq> CHR 0x0A)"
| "atom_matches Digit c = (c \<in> set ''0123456789'')"

text \<open>
  \<open>re.compile(p).match(s)\<close> followed by \<open>.groups()\<close>: the match is anchored at the start
  of \<open>s\<close> only, and the result is the list of the captured groups of the first match in
  backtracking order, or \<open>None\<close>.  A greedy star first takes one more character and
  gives it back when the rest of the pattern fails.
\<close>

fun rmatch :: "item list \<Rightarrow> string \<Rightarrow> string list option" where
  "rmatch [] s = Some []"
| "rmatch (One a # p) [] = None"
| "rmatch (One a # p) (c # s) = (if atom_matches a c then rmatch p s else None)"
| "rmatch (GroupStar a # p) [] = map_option (Cons []) (rmatch p [])"
| "rmatch (GroupStar a # p) (c # s) =
     (case (if atom_matches a c then rmatch (GroupStar a # p) s else None) of
        Some (g # gs) \<Rightarrow> Some ((c # g) # gs)
      | _ \<Rightarrow> map_option (Cons []) (rmatch p (c # s)))"

definition lits :: "string \<Rightarrow> item list" where
  "lits s = map (\<lambda>c. One (Lit c)) s"

text \<open>
  The pattern of line 61,
  \<^verbatim>\<open>https:\/\/bearer:secret-token:(.*)@app.getcensus.com\/api\/v1\/syncs\/(\d*)\/trigger\<close>.
  \<^verbatim>\<open>\/\<close> is the character \<open>/\<close>; the two dots of the host name are not escaped.
\<close>

definition pattern :: "item list" where
  "pattern =
     lits ''https://bearer:secret-token:'' @ [GroupStar Any] @
     lits ''@app'' @ [One Any] @ lits ''getcensus'' @ [One Any] @
     lits ''com/api/v1/syncs/'' @ [GroupStar Digit] @ lits ''/trigger''"

subsection \<open>The outside world\<close>

text \<open>
  A \<open>requests.Response\<close>: its status code, its \<open>text\<close> (the body, here \<open>body_text\<close>), and
  what \<open>json()\<close> returns (\<open>None\<close> when it raises because the body is not JSON).  Nothing
  relates the two: \<open>json\<close> is whatever the decoder makes of the body.  A request always
  comes back with a response; a failure of the transport itself is not modelled.
\<close>

record response =
  status_code :: int
  body_text :: string
  json :: "jvalue option"

text \<open>
  The two log lines that report the elapsed time are recorded without it: it is a
  difference of two readings of the clock.
\<close>

datatype log_line =
    Started string int
  | Still_running string
  | Finished string
  | View_details string

datatype event =
    Post string
  | Get string
  | Sleep int
  | Info log_line

type_synonym outcome = "(error + jvalue) option"

definition emit :: "event list \<Rightarrow> event list \<times> outcome \<Rightarrow> event list \<times> outcome" where
  "emit evs r = (evs @ fst r, snd r)"

subsection \<open>The messages of the four \<open>raise\<close> statements\<close>

definition missing_message :: string where
  "missing_message =
     ''Value for parameter `api_trigger` must be provided. See Census sync'' @ [CHR 0x0A] @
     ''                                configuration page.''"

definition invalid_message :: string where
  "invalid_message =
     ''Invalid parameter for `api_trigger` please paste directly from the Census'' @ [CHR 0x0A] @
     ''                                sync configuration page. This is CaSe SenSITiVe.''"

definition post_failed_message :: "response \<Rightarrow> string" where
  "post_failed_message r =
     ''Sent POST, failed with status code '' @ str_int (status_code r) @ '': '' @ body_text r @ ''.''"

definition poll_failed_message :: "string \<Rightarrow> string" where
  "poll_failed_message log_url =
     ''Getting status of sync failed, please visit Census Logs at '' @ log_url @
     '' to see more.''"

subsection \<open>The polling loop and what follows it (lines 93 to 125)\<close>

text \<open>
  \<open>while True\<close> has no bound, so the loop takes fuel: the number of iterations it may
  still start.  With no fuel left the outcome is \<open>None\<close>: the task is still polling.
  \<open>get n url\<close> is the response to the GET request number \<open>n\<close> (from 0), sent to \<open>url\<close>.
  \<open>json()\<close> is called before the status code is looked at, and \<open>keys()\<close> only when the
  status code is 200 (\<open>or\<close> evaluates its right operand only then).  The branch that leaves
  the loop with \<open>break\<close> goes on with the rest of \<open>run\<close>: the two closing log lines and the
  \<open>return\<close>.
\<close>

fun poll_loop ::
  "nat \<Rightarrow> (nat \<Rightarrow> string \<Rightarrow> response) \<Rightarrow> int \<Rightarrow> string \<Rightarrow> string \<Rightarrow> string \<Rightarrow> nat
     \<Rightarrow> event list \<times> outcome" where
  "poll_loop 0 get sleep_time sr_url log_url sync_id n = ([], None)"
| "poll_loop (Suc fuel) get sleep_time sr_url log_url sync_id n =
     emit [Sleep sleep_time, Get sr_url]
       (let status_response = get n sr_url in
        case json status_response of
          None \<Rightarrow> ([], Some (Inl JSONDecodeError))
        | Some response_dict \<Rightarrow>
            if status_code status_response \<noteq> 200
            then ([], Some (Inl (ValueError (poll_failed_message log_url))))
            else
              (case keys response_dict of
                 Inl e \<Rightarrow> ([], Some (Inl e))
               | Inr ks \<Rightarrow>
                   if ''data'' \<notin> set ks
                   then ([], Some (Inl (ValueError (poll_failed_message log_url))))
                   else
                     (case getitem response_dict ''data'' of
                        Inl e \<Rightarrow> ([], Some (Inl e))
                      | Inr result \<Rightarrow>
                          (case getitem result ''status'' of
                             Inl e \<Rightarrow> ([], Some (Inl e))
                           | Inr status \<Rightarrow>
                               if status = JString ''working''
                               then emit [Info (Still_running sync_id)]
                                      (poll_loop fuel get sleep_time sr_url log_url sync_id (Suc n))
                               else ([Info (Finished sync_id), Info (View_details log_url)],
                                     Some (Inr result))))))"

subsection \<open>\<open>CensusSyncTask.run\<close>\<close>

text \<open>
  \<open>api_trigger\<close> is the value the body of \<open>run\<close> receives, \<open>None\<close> being Python's \<open>None\<close>
  (the decorator has filled in the default of the constructor by then).
  \<open>poll_status_every_n_seconds\<close> is \<open>None\<close> when the caller leaves the argument out, and
  the default of the signature applies.  \<open>post url\<close> is the response to the POST.
  Line 73 unpacks the groups into two names; the pattern has two groups, so the last
  branch below, where the unpacking would fail, is never taken (\<open>pattern_sound\<close>).
\<close>

definition run ::
  "nat \<Rightarrow> (jvalue \<Rightarrow> string) \<Rightarrow> (string \<Rightarrow> response) \<Rightarrow> (nat \<Rightarrow> string \<Rightarrow> response)
     \<Rightarrow> string option \<Rightarrow> int option \<Rightarrow> event list \<times> outcome" where
  "run fuel repr post get api_trigger poll_status_every_n_seconds =
     (case api_trigger of
        None \<Rightarrow> ([], Some (Inl (ValueError missing_message)))
      | Some trigger \<Rightarrow>
          if trigger = [] then ([], Some (Inl (ValueError missing_message)))
          else
            (case rmatch pattern trigger of
               None \<Rightarrow> ([], Some (Inl (ValueError invalid_message)))
             | Some [secret, sync_id] \<Rightarrow>
                 emit [Post trigger]
                   (let response = post trigger in
                    if status_code response \<noteq> 200
                    then ([], Some (Inl (ValueError (post_failed_message response))))
                    else
                      (let sleep_time =
                             max MIN_WAIT_TIME
                               (case poll_status_every_n_seconds of
                                  None \<Rightarrow> DEFAULT_WAIT_TIME
                                | Some n \<Rightarrow> n)
                       in emit [Info (Started sync_id sleep_time)]
                            (case json response of
                               None \<Rightarrow> ([], Some (Inl JSONDecodeError))
                             | Some body \<Rightarrow>
                                 (case getitem body ''data'' of
                                    Inl e \<Rightarrow> ([], Some (Inl e))
                                  | Inr data \<Rightarrow>
                                      (case getitem data ''sync_run_id'' of
                                         Inl e \<Rightarrow> ([], Some (Inl e))
                                       | Inr sync_run_id \<Rightarrow>
                                           (let sr_url =
                                                  ''https://bearer:secret-token:'' @ secret @
                                                  ''@app.getcensus.com/api/v1/sync_runs/'' @
                                                  py_str repr sync_run_id;
                                                log_url =
                                                  ''https://app.getcensus.com/syncs/'' @ sync_id @
                                                  ''/sync-history''
                                            in poll_loop fuel get sleep_time sr_url log_url
                                                 sync_id 0))))))
             | Some groups \<Rightarrow>
                 ([], Some (Inl (ValueError ''not enough values to unpack'')))))"

section \<open>What the claims speak of\<close>

text \<open>
  The strings that the pattern describes, stated without the matcher: the literal parts
  of the pattern in their places, a secret without a newline, one character that is not
  a newline where the pattern has a dot, a sync id of digits, and anything after
  \<open>/trigger\<close>.
\<close>

definition trigger_shaped :: "string \<Rightarrow> string \<Rightarrow> string \<Rightarrow> bool" where
  "trigger_shaped s secret sync_id \<longleftrightarrow>
     (\<exists>c1 c2 rest.
        s = ''https://bearer:secret-token:'' @ secret @ ''@app'' @ [c1] @ ''getcensus'' @ [c2] @
            ''com/api/v1/syncs/'' @ sync_id @ ''/trigger'' @ rest \<and>
        CHR 0x0A \<notin> set secret \<and> c1 \<noteq> CHR 0x0A \<and> c2 \<noteq> CHR 0x0A \<and>
        set sync_id \<subseteq> set ''0123456789'')"

text \<open>
  The run id that line 86 reads from the response to the POST, when it is there.
\<close>

definition triggered_run_id :: "response \<Rightarrow> jvalue option" where
  "triggered_run_id r =
     (case json r of
        None \<Rightarrow> None
      | Some body \<Rightarrow>
          (case getitem body ''data'' of
             Inl e \<Rightarrow> None
           | Inr data \<Rightarrow>
               (case getitem data ''sync_run_id'' of Inl e \<Rightarrow> None | Inr rid \<Rightarrow> Some rid)))"

text \<open>
  The \<open>data\<close> member of a poll response, and the status that a poll response reports
  when the loop gets as far as reading it: the status code is 200, the body is an object,
  its \<open>data\<close> member is an object and has a \<open>status\<close> member.
\<close>

definition polled_data :: "response \<Rightarrow> jvalue option" where
  "polled_data r =
     (case json r of Some (JObject kvs) \<Rightarrow> map_of kvs ''data'' | _ \<Rightarrow> None)"

definition polled_status :: "response \<Rightarrow> jvalue option" where
  "polled_status r =
     (if status_code r = 200
      then (case polled_data r of Some (JObject members) \<Rightarrow> map_of members ''status'' | _ \<Rightarrow> None)
      else None)"

definition is_Get :: "event \<Rightarrow> bool" where
  "is_Get ev = (case ev of Get u \<Rightarrow> True | _ \<Rightarrow> False)"

text \<open>
  The reading of a decimal numeral: digits only, no leading zero, a minus sign only
  before a number other than zero.  It says what the text is that \<open>str\<close> makes of an
  integer: the one numeral that reads back as that integer.
\<close>

definition digit_values :: "(char \<times> nat) list" where
  "digit_values = zip ''0123456789'' [0, 1, 2, 3, 4, 5, 6, 7, 8, 9]"

fun decimal_nat :: "nat \<Rightarrow> string \<Rightarrow> nat option" where
  "decimal_nat acc [] = Some acc"
| "decimal_nat acc (c # cs) =
     (case map_of digit_values c of
        None \<Rightarrow> None
      | Some d \<Rightarrow> decimal_nat (10 * acc + d) cs)"

definition read_nat :: "string \<Rightarrow> nat option" where
  "read_nat s =
     (case s of
        [] \<Rightarrow> None
      | c # cs \<Rightarrow> if c = CHR ''0'' \<and> cs \<noteq> [] then None else decimal_nat 0 s)"

definition read_int :: "string \<Rightarrow> int option" where
  "read_int s =
     (case s of
        [] \<Rightarrow> None
      | c # cs \<Rightarrow>
          if c = CHR ''-''
          then (case read_nat cs of
                  None \<Rightarrow> None
                | Some n \<Rightarrow> if n = 0 then None else Some (- int n))
          else map_option int (read_nat s))"

text \<open>
  An endpoint as the specification words it, to set against the pattern of the source:
  the whole string is the scheme and user of the docstring, a secret that is not empty
  and has no newline, the host \<open>app.getcensus.com\<close> and the path, a sync id of one digit
  or more, and \<open>/trigger\<close> with nothing after it.
\<close>

definition strip_prefix :: "string \<Rightarrow> string \<Rightarrow> string option" where
  "strip_prefix p s = (if take (length p) s = p then Some (drop (length p) s) else None)"

definition strip_suffix :: "string \<Rightarrow> string \<Rightarrow> string option" where
  "strip_suffix p s = map_option rev (strip_prefix (rev p) (rev s))"

definition well_formed_endpoint :: "string \<Rightarrow> bool" where
  "well_formed_endpoint s =
     (case strip_prefix ''https://bearer:secret-token:'' s of
        None \<Rightarrow> False
      | Some r \<Rightarrow>
          (case strip_suffix ''/trigger'' r of
             None \<Rightarrow> False
           | Some m \<Rightarrow>
               (let sync_id = rev (takeWhile (atom_matches Digit) (rev m));
                    front = rev (dropWhile (atom_matches Digit) (rev m))
                in case strip_suffix ''@app.getcensus.com/api/v1/syncs/'' front of
                     None \<Rightarrow> False
                   | Some secret \<Rightarrow>
                       secret \<noteq> [] \<and> CHR 0x0A \<notin> set secret \<and> sync_id \<noteq> [])))"

subsection \<open>A small world to run the task in\<close>

text \<open>
  The trigger of the docstring, a POST that starts run 94, and a status endpoint that
  reports \<open>working\<close> twice and then \<open>completed\<close>; further a POST and a GET that
  fail, a POST that starts a run with a string for its id, and triggers with a tail, an
  empty group or another character for a dot of the host.  \<open>no_repr\<close> stands for Python's \<open>repr\<close> where no float, list or dict is formatted.
\<close>

definition example_trigger :: string where
  "example_trigger =
     ''https://bearer:secret-token:abc123@app.getcensus.com/api/v1/syncs/42/trigger''"

definition example_status_url :: string where
  "example_status_url = ''https://bearer:secret-token:abc123@app.getcensus.com/api/v1/sync_runs/94''"

definition no_repr :: "jvalue \<Rightarrow> string" where
  "no_repr v = []"

definition ok_post :: "string \<Rightarrow> response" where
  \<open>ok_post url =
     \<lparr>status_code = 200, body_text = ''{"status": "success", "data": {"sync_run_id": 94}}'',
      json = Some (JObject [(''status'', JString ''success''),
                            (''data'', JObject [(''sync_run_id'', JInt 94)])])\<rparr>\<close>

definition unavailable_post :: "string \<Rightarrow> response" where
  "unavailable_post url =
     \<lparr>status_code = 503, body_text = ''Service Unavailable'', json = None\<rparr>"

definition no_id_post :: "string \<Rightarrow> response" where
  \<open>no_id_post url =
     \<lparr>status_code = 200, body_text = ''{"status": "success", "data": {}}'',
      json = Some (JObject [(''status'', JString ''success''), (''data'', JObject [])])\<rparr>\<close>

definition working_response :: response where
  \<open>working_response =
     \<lparr>status_code = 200, body_text = ''{"data": {"status": "working"}}'',
      json = Some (JObject [(''data'', JObject [(''status'', JString ''working'')])])\<rparr>\<close>

definition completed_response :: response where
  \<open>completed_response =
     \<lparr>status_code = 200,
      body_text = ''{"data": {"status": "completed", "records_processed": 10}}'',
      json = Some (JObject [(''data'', JObject [(''status'', JString ''completed''),
                                                (''records_processed'', JInt 10)])])\<rparr>\<close>

definition not_found_response :: response where
  "not_found_response = \<lparr>status_code = 404, body_text = ''Not Found'', json = None\<rparr>"

definition bad_gateway_response :: response where
  "bad_gateway_response =
     \<lparr>status_code = 502, body_text = ''<html>502 Bad Gateway</html>'', json = None\<rparr>"

definition trailing_trigger :: string where
  "trailing_trigger =
     ''https://bearer:secret-token:abc123@app.getcensus.com/api/v1/syncs/42/trigger/and?more=1''"

definition empty_secret_trigger :: string where
  "empty_secret_trigger = ''https://bearer:secret-token:@app.getcensus.com/api/v1/syncs/42/trigger''"

definition empty_id_trigger :: string where
  "empty_id_trigger = ''https://bearer:secret-token:abc123@app.getcensus.com/api/v1/syncs//trigger''"

definition string_id_post :: "string \<Rightarrow> response" where
  \<open>string_id_post url =
     \<lparr>status_code = 200, body_text = ''{"data": {"sync_run_id": "r9"}}'',
      json = Some (JObject [(''data'', JObject [(''sync_run_id'', JString ''r9'')])])\<rparr>\<close>

definition missing_post :: "string \<Rightarrow> response" where
  "missing_post url = \<lparr>status_code = 404, body_text = ''Not Found'', json = None\<rparr>"

definition other_host_trigger :: string where
  "other_host_trigger =
     ''https://bearer:secret-token:abc123@appXgetcensus-com/api/v1/syncs/42/trigger''"

definition example_get :: "nat \<Rightarrow> string \<Rightarrow> response" where
  "example_get n url =
     (if url \<noteq> example_status_url then not_found_response
      else if n < 2 then working_response else completed_response)"

section \<open>Properties of the parts\<close>

subsection \<open>The matcher\<close>

text \<open>
  What a match of each kind of item means for the string.  For a group the matcher is
  sound (the captured text and the rest are as the item says) and complete (when some
  split of the string fits, it finds a match, though maybe another one: it prefers the
  longest group).
\<close>

lemma rmatch_One_iff:
  "rmatch (One a # p) s = Some gs \<longleftrightarrow>
     (\<exists>c rest. s = c # rest \<and> atom_matches a c \<and> rmatch p rest = Some gs)"
  by (cases s) auto

lemma rmatch_lits_iff:
  "rmatch (lits l @ p) s = Some gs \<longleftrightarrow> (\<exists>rest. s = l @ rest \<and> rmatch p rest = Some gs)"
proof (induction l arbitrary: s)
  case Nil
  show ?case by (simp add: lits_def)
next
  case (Cons x l)
  have "rmatch (lits (x # l) @ p) s = Some gs \<longleftrightarrow>
          (\<exists>rest. s = x # rest \<and> rmatch (lits l @ p) rest = Some gs)"
    by (cases s) (auto simp: lits_def)
  with Cons.IH show ?case by auto
qed

lemma rmatch_GroupStar_sound:
  "rmatch (GroupStar a # p) s = Some gs \<Longrightarrow>
     \<exists>g gs' rest. gs = g # gs' \<and> s = g @ rest \<and> (\<forall>c\<in>set g. atom_matches a c) \<and>
       rmatch p rest = Some gs'"
proof (induction s arbitrary: gs)
  case Nil
  then show ?case by auto
next
  case (Cons c s)
  show ?case
  proof (cases "atom_matches a c \<and> (\<exists>g gs'. rmatch (GroupStar a # p) s = Some (g # gs'))")
    case True
    then obtain g gs' where m: "atom_matches a c" and r: "rmatch (GroupStar a # p) s = Some (g # gs')"
      by blast
    from Cons.prems m r have gs: "gs = (c # g) # gs'" by simp
    from Cons.IH [OF r] obtain rest where
      "s = g @ rest" "\<forall>c\<in>set g. atom_matches a c" "rmatch p rest = Some gs'"
      by auto
    with m gs show ?thesis by auto
  next
    case False
    with Cons.prems have "map_option (Cons []) (rmatch p (c # s)) = Some gs"
      by (auto split: if_splits option.splits list.splits)
    then obtain gs' where "gs = [] # gs'" "rmatch p (c # s) = Some gs'"
      by auto
    then show ?thesis by force
  qed
qed




subsection \<open>The pattern of the source\<close>

text \<open>
  A match of the pattern always yields the two groups that line 73 unpacks, and the
  string has the shape \<open>trigger_shaped\<close>; conversely every string of that shape is matched.
\<close>

lemma rmatch_lits_end_iff:
  "rmatch (lits l) s = Some gs \<longleftrightarrow> (\<exists>rest. s = l @ rest \<and> gs = [])"
  using rmatch_lits_iff [of l "[]" s gs] by auto

lemma pattern_sound:
  assumes "rmatch pattern s = Some gs"
  shows "\<exists>secret sync_id. gs = [secret, sync_id] \<and> trigger_shaped s secret sync_id"
proof -
  from assms obtain r1 where
    s: "s = ''https://bearer:secret-token:'' @ r1" and
    m1: "rmatch (GroupStar Any # lits ''@app'' @ One Any # lits ''getcensus'' @ One Any #
           lits ''com/api/v1/syncs/'' @ GroupStar Digit # lits ''/trigger'') r1 = Some gs"
    unfolding pattern_def rmatch_lits_iff by auto
  from rmatch_GroupStar_sound [OF m1] obtain secret gs1 r2 where
    gs: "gs = secret # gs1" and r1: "r1 = secret @ r2" and
    secret: "\<forall>c\<in>set secret. atom_matches Any c" and
    m2: "rmatch (lits ''@app'' @ One Any # lits ''getcensus'' @ One Any #
           lits ''com/api/v1/syncs/'' @ GroupStar Digit # lits ''/trigger'') r2 = Some gs1"
    by blast
  from m2 obtain c1 r3 where
    r2: "r2 = ''@app'' @ c1 # r3" and c1: "atom_matches Any c1" and
    m3: "rmatch (lits ''getcensus'' @ One Any #
           lits ''com/api/v1/syncs/'' @ GroupStar Digit # lits ''/trigger'') r3 = Some gs1"
    unfolding rmatch_lits_iff rmatch_One_iff by blast
  from m3 obtain c2 r4 where
    r3: "r3 = ''getcensus'' @ c2 # r4" and c2: "atom_matches Any c2" and
    m4: "rmatch (lits ''com/api/v1/syncs/'' @ GroupStar Digit # lits ''/trigger'') r4 = Some gs1"
    unfolding rmatch_lits_iff rmatch_One_iff by blast
  from m4 obtain r5 where
    r4: "r4 = ''com/api/v1/syncs/'' @ r5" and
    m5: "rmatch (GroupStar Digit # lits ''/trigger'') r5 = Some gs1"
    unfolding rmatch_lits_iff by blast
  from rmatch_GroupStar_sound [OF m5] obtain sync_id gs2 r6 where
    gs1: "gs1 = sync_id # gs2" and r5: "r5 = sync_id @ r6" and
    sync_id: "\<forall>c\<in>set sync_id. atom_matches Digit c" and
    m6: "rmatch (lits ''/trigger'') r6 = Some gs2"
    by blast
  from m6 obtain rest where r6: "r6 = ''/trigger'' @ rest" and gs2: "gs2 = []"
    unfolding rmatch_lits_end_iff by blast
  have "s = ''https://bearer:secret-token:'' @ secret @ ''@app'' @ [c1] @ ''getcensus'' @ [c2] @
            ''com/api/v1/syncs/'' @ sync_id @ ''/trigger'' @ rest"
    unfolding s r1 r2 r3 r4 r5 r6 by simp
  moreover have "CHR 0x0A \<notin> set secret"
    using secret by auto
  moreover have "set sync_id \<subseteq> set ''0123456789''"
    using sync_id by (meson atom_matches.simps(3) subsetI)
  ultimately have "trigger_shaped s secret sync_id"
    unfolding trigger_shaped_def using c1 c2 by (intro exI [of _ c1] exI [of _ c2] exI [of _ rest]) simp
  with gs gs1 gs2 show ?thesis by blast
qed


subsection \<open>Well-formed endpoints\<close>

text \<open>
  A well-formed endpoint has the shape of the pattern, so it is accepted.
\<close>

lemma strip_prefixD: "strip_prefix p s = Some r \<Longrightarrow> s = p @ r"
  by (auto simp: strip_prefix_def split: if_splits) (metis append_take_drop_id)

lemma strip_suffixD: "strip_suffix p s = Some r \<Longrightarrow> s = r @ p"
proof -
  assume "strip_suffix p s = Some r"
  then obtain r' where "strip_prefix (rev p) (rev s) = Some r'" and r: "r = rev r'"
    by (auto simp: strip_suffix_def)
  from strip_prefixD [OF this(1)] have "rev s = rev p @ r'" .
  then have "s = rev (rev p @ r')" by (metis rev_rev_ident)
  with r show ?thesis by simp
qed

lemma well_formed_is_shaped:
  assumes "well_formed_endpoint s"
  shows "\<exists>secret sync_id. trigger_shaped s secret sync_id"
proof -
  from assms obtain r m secret where
    r: "strip_prefix ''https://bearer:secret-token:'' s = Some r" and
    m: "strip_suffix ''/trigger'' r = Some m" and
    secret: "strip_suffix ''@app.getcensus.com/api/v1/syncs/''
               (rev (dropWhile (atom_matches Digit) (rev m))) = Some secret" and
    line: "CHR 0x0A \<notin> set secret"
    unfolding well_formed_endpoint_def
    by (auto simp: Let_def split: option.splits)
  define sync_id where "sync_id = rev (takeWhile (atom_matches Digit) (rev m))"
  have "rev m = takeWhile (atom_matches Digit) (rev m) @ dropWhile (atom_matches Digit) (rev m)"
    by simp
  then have "m = rev (dropWhile (atom_matches Digit) (rev m)) @ sync_id"
    unfolding sync_id_def by (metis rev_append rev_rev_ident)
  with strip_suffixD [OF secret] have m': "m = secret @ ''@app.getcensus.com/api/v1/syncs/'' @ sync_id"
    by simp
  have digits: "set sync_id \<subseteq> set ''0123456789''"
    unfolding sync_id_def using set_takeWhileD [of _ "atom_matches Digit" "rev m"] by auto
  have "s = ''https://bearer:secret-token:'' @ secret @ ''@app'' @ [CHR ''.''] @ ''getcensus'' @
          [CHR ''.''] @ ''com/api/v1/syncs/'' @ sync_id @ ''/trigger'' @ []"
    using strip_prefixD [OF r] strip_suffixD [OF m] m' by simp
  with line digits have "trigger_shaped s secret sync_id"
    unfolding trigger_shaped_def
    by (intro exI [of _ "CHR ''.''"] exI [of _ "[]"]) simp
  then show ?thesis by blast
qed

subsection \<open>Traces and lookups\<close>

declare str_nat.simps [simp del]

lemma fst_emit [simp]: "fst (emit evs r) = evs @ fst r"
  by (simp add: emit_def)

lemma snd_emit [simp]: "snd (emit evs r) = snd r"
  by (simp add: emit_def)

lemma emit_pair [simp]: "emit evs (tr, out) = (evs @ tr, out)"
  by (simp add: emit_def)

lemma emit_emit: "emit xs (emit ys r) = emit (xs @ ys) r"
  by (simp add: emit_def)

lemma getitem_error: "getitem v k = Inl e \<Longrightarrow> e = KeyError k \<or> e = TypeError"
  by (cases v) (auto split: option.splits)

lemma keys_error: "keys v = Inl e \<Longrightarrow> e = AttributeError"
  by (cases v) auto

subsection \<open>Decimal numerals\<close>

text \<open>
  \<open>str\<close> of an integer is the numeral that \<open>read_int\<close> reads back as that integer.
\<close>

lemma digit_value:
  assumes "d < 10"
  shows "map_of digit_values (''0123456789'' ! d) = Some d"
proof -
  from assms have "d \<in> {0, 1, 2, 3, 4, 5, 6, 7, 8, 9}" by auto
  then show ?thesis by (auto simp: digit_values_def)
qed

lemma decimal_nat_append:
  "decimal_nat acc (xs @ ys) =
     (case decimal_nat acc xs of None \<Rightarrow> None | Some a \<Rightarrow> decimal_nat a ys)"
  by (induction xs arbitrary: acc) (auto split: option.splits)

lemma decimal_nat_str_nat: "decimal_nat 0 (str_nat n) = Some n"
proof (induction n rule: str_nat.induct)
  case (1 n)
  show ?case
  proof (cases "n < 10")
    case True
    then show ?thesis by (subst str_nat.simps) (simp add: digit_value)
  next
    case False
    have "n mod 10 < 10" by simp
    with False 1 show ?thesis
      by (subst str_nat.simps) (simp add: decimal_nat_append digit_value)
  qed
qed

lemma str_nat_not_empty: "str_nat n \<noteq> []"
  by (subst str_nat.simps) simp

lemma str_nat_leading_zero: "str_nat n = CHR ''0'' # cs \<Longrightarrow> n = 0"
proof (induction n arbitrary: cs rule: str_nat.induct)
  case (1 n)
  show ?case
  proof (cases "n < 10")
    case True
    with "1.prems" have "''0123456789'' ! n = CHR ''0''"
      by (subst (asm) str_nat.simps) simp
    with digit_value [OF True] show ?thesis by (simp add: digit_values_def)
  next
    case False
    obtain c cs' where head: "str_nat (n div 10) = c # cs'"
      using str_nat_not_empty [of "n div 10"] by (cases "str_nat (n div 10)") auto
    with False "1.prems" have "c = CHR ''0''"
      by (subst (asm) str_nat.simps) simp
    with head "1.IH" [OF False] have "n div 10 = 0" by simp
    with False show ?thesis by simp
  qed
qed

lemma str_nat_no_sign: "str_nat n = c # cs \<Longrightarrow> c \<noteq> CHR ''-''"
proof
  assume s: "str_nat n = c # cs" and c: "c = CHR ''-''"
  from decimal_nat_str_nat [of n] s c show False
    by (simp add: digit_values_def)
qed

lemma read_nat_str_nat: "read_nat (str_nat n) = Some n"
proof (cases "str_nat n")
  case Nil
  with str_nat_not_empty show ?thesis by simp
next
  case (Cons c cs)
  show ?thesis
  proof (cases "c = CHR ''0'' \<and> cs \<noteq> []")
    case True
    with Cons str_nat_leading_zero [of n cs] have "n = 0" by simp
    then have "str_nat n = ''0''" by (simp add: str_nat.simps)
    with Cons True show ?thesis by simp
  next
    case False
    with Cons decimal_nat_str_nat [of n] show ?thesis by (simp add: read_nat_def)
  qed
qed

lemma read_int_str_int: "read_int (str_int i) = Some i"
proof (cases "i < 0")
  case True
  then have "nat (- i) \<noteq> 0" by simp
  with True show ?thesis by (simp add: read_int_def str_int_def read_nat_str_nat)
next
  case False
  obtain c cs where s: "str_nat (nat i) = c # cs"
    using str_nat_not_empty [of "nat i"] by (cases "str_nat (nat i)") auto
  with str_nat_no_sign [OF s] read_nat_str_nat [of "nat i"] False show ?thesis
    by (simp add: read_int_def str_int_def)
qed

subsection \<open>The polling loop\<close>

lemma polled_statusD:
  assumes "polled_status r = Some st"
  shows "\<exists>kvs members. status_code r = 200 \<and> json r = Some (JObject kvs) \<and>
           map_of kvs ''data'' = Some (JObject members) \<and> map_of members ''status'' = Some st \<and>
           polled_data r = Some (JObject members)"
  using assms unfolding polled_status_def polled_data_def
  by (auto split: if_splits option.splits jvalue.splits)

lemma map_of_in_keys: "map_of kvs k = Some v \<Longrightarrow> k \<in> fst ` set kvs"
  by (metis map_of_eq_None_iff option.distinct(1))

lemma poll_loop_working:
  assumes "polled_status (get n url) = Some (JString ''working'')"
  shows "poll_loop (Suc fuel) get t url log sid n =
           emit [Sleep t, Get url, Info (Still_running sid)]
             (poll_loop fuel get t url log sid (Suc n))"
proof -
  from polled_statusD [OF assms] obtain kvs members where
    "status_code (get n url) = 200" "json (get n url) = Some (JObject kvs)"
    "map_of kvs ''data'' = Some (JObject members)"
    "map_of members ''status'' = Some (JString ''working'')"
    by blast
  then show ?thesis
    using map_of_in_keys [of kvs "''data''"] by (simp add: emit_emit)
qed

lemma poll_loop_terminal:
  assumes "polled_status (get n url) = Some st" and "st \<noteq> JString ''working''"
    and "polled_data (get n url) = Some d"
  shows "poll_loop (Suc fuel) get t url log sid n =
           ([Sleep t, Get url, Info (Finished sid), Info (View_details log)], Some (Inr d))"
proof -
  from polled_statusD [OF assms(1)] obtain kvs members where
    "status_code (get n url) = 200" "json (get n url) = Some (JObject kvs)"
    "map_of kvs ''data'' = Some (JObject members)"
    "map_of members ''status'' = Some st" "polled_data (get n url) = Some (JObject members)"
    by blast
  then show ?thesis
    using map_of_in_keys [of kvs "''data''"] assms(2,3) by simp
qed

lemma poll_loop_until_terminal:
  assumes "\<And>i. i < j \<Longrightarrow> polled_status (get (n + i) url) = Some (JString ''working'')"
    and "polled_status (get (n + j) url) = Some st" and "st \<noteq> JString ''working''"
    and "polled_data (get (n + j) url) = Some d" and "j < fuel"
  shows "poll_loop fuel get t url log sid n =
           (concat (replicate j [Sleep t, Get url, Info (Still_running sid)]) @
              [Sleep t, Get url, Info (Finished sid), Info (View_details log)],
            Some (Inr d))"
  using assms
proof (induction j arbitrary: n fuel)
  case 0
  then obtain f where "fuel = Suc f" by (cases fuel) auto
  with 0 show ?case using poll_loop_terminal [of get n url st d f t log sid] by simp
next
  case (Suc j)
  then obtain f where f: "fuel = Suc f" by (cases fuel) auto
  have w: "polled_status (get n url) = Some (JString ''working'')"
    using Suc.prems(1) [of 0] by simp
  have "poll_loop f get t url log sid (Suc n) =
          (concat (replicate j [Sleep t, Get url, Info (Still_running sid)]) @
             [Sleep t, Get url, Info (Finished sid), Info (View_details log)],
           Some (Inr d))"
  proof (rule Suc.IH)
    show "polled_status (get (Suc n + i) url) = Some (JString ''working'')" if "i < j" for i
      using Suc.prems(1) [of "Suc i"] that by simp
    show "polled_status (get (Suc n + j) url) = Some st" using Suc.prems(2) by simp
    show "st \<noteq> JString ''working''" by fact
    show "polled_data (get (Suc n + j) url) = Some d" using Suc.prems(4) by simp
    show "j < f" using Suc.prems(5) f by simp
  qed
  then show ?case unfolding f poll_loop_working [where get = get and n = n and url = url, OF w] by simp
qed

lemma poll_loop_events:
  "ev \<in> set (fst (poll_loop fuel get t url log sid n)) \<Longrightarrow>
     ev = Sleep t \<or> ev = Get url \<or> ev = Info (Still_running sid) \<or>
     ev = Info (Finished sid) \<or> ev = Info (View_details log)"
proof (induction fuel arbitrary: n)
  case 0
  then show ?case by simp
next
  case (Suc fuel)
  then show ?case
    by (auto simp: Let_def split: option.splits if_splits sum.splits)
qed

lemma poll_loop_raises:
  "snd (poll_loop fuel get t url log sid n) = Some (Inl (ValueError m)) \<Longrightarrow>
     m = poll_failed_message log"
proof (induction fuel arbitrary: n)
  case 0
  then show ?case by simp
next
  case (Suc fuel)
  then show ?case
    by (auto simp: Let_def split: option.splits if_splits sum.splits
             dest: getitem_error keys_error)
qed

lemma filter_Get_polls:
  "filter is_Get (concat (replicate j [Sleep t, Get u, Info l])) = replicate j (Get u)"
  by (induction j) (simp_all add: is_Get_def)

subsection \<open>The phases of \<open>run\<close>\<close>

text \<open>
  One equation for each way through the trigger phase: the POST fails, the body is not
  JSON, the run id is not there, or polling starts.
\<close>

lemma run_validated:
  assumes "trigger \<noteq> []" and "rmatch pattern trigger = Some [secret, sync_id]"
    and "status_code (post trigger) = 200" and "json (post trigger) = Some body"
    and "getitem body ''data'' = Inr data" and "getitem data ''sync_run_id'' = Inr rid"
  shows "run fuel repr post get (Some trigger) p =
           emit [Post trigger,
                 Info (Started sync_id (max MIN_WAIT_TIME (case p of None \<Rightarrow> DEFAULT_WAIT_TIME | Some n \<Rightarrow> n)))]
             (poll_loop fuel get (max MIN_WAIT_TIME (case p of None \<Rightarrow> DEFAULT_WAIT_TIME | Some n \<Rightarrow> n))
                (''https://bearer:secret-token:'' @ secret @
                 ''@app.getcensus.com/api/v1/sync_runs/'' @ py_str repr rid)
                (''https://app.getcensus.com/syncs/'' @ sync_id @ ''/sync-history'')
                sync_id 0)"
  using assms
  by (simp add: run_def Let_def emit_emit)

lemma messages_distinct:
  "post_failed_message r \<noteq> missing_message" "post_failed_message r \<noteq> invalid_message"
  "poll_failed_message l \<noteq> missing_message" "poll_failed_message l \<noteq> invalid_message"
  by (simp_all add: post_failed_message_def poll_failed_message_def missing_message_def
        invalid_message_def)

lemma triggered_run_id_SomeD:
  "triggered_run_id r = Some rid \<Longrightarrow>
     \<exists>body data. json r = Some body \<and> getitem body ''data'' = Inr data \<and>
       getitem data ''sync_run_id'' = Inr rid"
  by (auto simp: triggered_run_id_def split: option.splits sum.splits)

lemma run_post_failed:
  assumes "trigger \<noteq> []" and "rmatch pattern trigger = Some [secret, sync_id]"
    and "status_code (post trigger) \<noteq> 200"
  shows "run fuel repr post get (Some trigger) p =
           ([Post trigger], Some (Inl (ValueError (post_failed_message (post trigger)))))"
  using assms by (simp add: run_def Let_def)

lemma run_not_json:
  assumes "trigger \<noteq> []" and "rmatch pattern trigger = Some [secret, sync_id]"
    and "status_code (post trigger) = 200" and "json (post trigger) = None"
  shows "run fuel repr post get (Some trigger) p =
           ([Post trigger,
             Info (Started sync_id
               (max MIN_WAIT_TIME (case p of None \<Rightarrow> DEFAULT_WAIT_TIME | Some n \<Rightarrow> n)))],
            Some (Inl JSONDecodeError))"
  using assms by (simp add: run_def Let_def)

lemma run_lookup_failed:
  assumes "trigger \<noteq> []" and "rmatch pattern trigger = Some [secret, sync_id]"
    and "status_code (post trigger) = 200" and "json (post trigger) = Some body"
    and "triggered_run_id (post trigger) = None"
  shows "\<exists>e. run fuel repr post get (Some trigger) p =
           ([Post trigger,
             Info (Started sync_id
               (max MIN_WAIT_TIME (case p of None \<Rightarrow> DEFAULT_WAIT_TIME | Some n \<Rightarrow> n)))],
            Some (Inl e)) \<and>
           (e = KeyError ''data'' \<or> e = KeyError ''sync_run_id'' \<or> e = TypeError)"
proof (cases "getitem body ''data''")
  case (Inl e)
  with assms(1-4) getitem_error [OF Inl] show ?thesis
    by (auto simp: run_def Let_def)
next
  case (Inr data)
  with assms(4,5) obtain e where e: "getitem data ''sync_run_id'' = Inl e"
    by (cases "getitem data ''sync_run_id''") (auto simp: triggered_run_id_def)
  with assms(1-4) Inr getitem_error [OF e] show ?thesis
    by (auto simp: run_def Let_def)
qed

lemma poll_failure_reported:
  assumes "json (get n url) = Some body"
    and "status_code (get n url) \<noteq> 200 \<or> (\<exists>kvs. body = JObject kvs \<and> map_of kvs ''data'' = None)"
  shows "poll_loop (Suc fuel) get t url log sid n =
           ([Sleep t, Get url],
            Some (Inl (ValueError
              (''Getting status of sync failed, please visit Census Logs at '' @ log @
               '' to see more.''))))"
  using assms by (auto simp: poll_failed_message_def map_of_eq_None_iff)

lemma run_sleeps:
  assumes "Sleep t \<in> set (fst (run fuel repr post get a p))"
  shows "t = max MIN_WAIT_TIME (case p of None \<Rightarrow> DEFAULT_WAIT_TIME | Some n \<Rightarrow> n)"
  using assms
  by (auto simp: run_def Let_def split: option.splits list.splits if_splits sum.splits
        dest!: poll_loop_events)

lemma rejected_without_trace:
  assumes "snd (run fuel repr post get a p) = Some (Inl (ValueError m))"
    and "m = missing_message \<or> m = invalid_message"
  shows "fst (run fuel repr post get a p) = []"
proof (cases a)
  case None
  then show ?thesis by (simp add: run_def)
next
  case (Some trigger)
  show ?thesis
  proof (cases "trigger = [] \<or> rmatch pattern trigger = None")
    case True
    with Some show ?thesis by (auto simp: run_def)
  next
    case False
    then obtain gs where "rmatch pattern trigger = Some gs" by auto
    with pattern_sound [OF this] obtain secret sync_id where
      groups: "rmatch pattern trigger = Some [secret, sync_id]" by auto
    from False have nonempty: "trigger \<noteq> []" by simp
    have "snd (run fuel repr post get a p) \<noteq> Some (Inl (ValueError m))"
    proof (cases "status_code (post trigger) = 200")
      case False
      from run_post_failed [where post = post, OF nonempty groups False] assms(2) Some show ?thesis
        by (auto simp: messages_distinct)
    next
      case ok: True
      show ?thesis
      proof (cases "json (post trigger)")
        case None
        from run_not_json [where post = post, OF nonempty groups ok None] Some show ?thesis by simp
      next
        case body: (Some body)
        show ?thesis
        proof (cases "triggered_run_id (post trigger)")
          case None
          from run_lookup_failed [where post = post, OF nonempty groups ok body None, of fuel repr get p] Some
          show ?thesis by auto
        next
          case (Some rid)
          from triggered_run_id_SomeD [OF Some] obtain body' data where
            "json (post trigger) = Some body'" "getitem body' ''data'' = Inr data"
            "getitem data ''sync_run_id'' = Inr rid"
            by blast
          from run_validated [where post = post, OF nonempty groups ok this, of fuel repr get p] \<open>a = _\<close> assms(2)
          show ?thesis by (auto dest!: poll_loop_raises simp: messages_distinct)
        qed
      qed
    qed
    with assms(1) show ?thesis by simp
  qed
qed

lemma accepted_trigger:
  assumes "trigger \<noteq> []" and "rmatch pattern trigger = Some [secret, sync_id]"
  shows "\<exists>evs. fst (run fuel repr post get (Some trigger) p) = Post trigger # evs"
    and "snd (run fuel repr post get (Some trigger) p) \<noteq> Some (Inl (ValueError missing_message))"
    and "snd (run fuel repr post get (Some trigger) p) \<noteq> Some (Inl (ValueError invalid_message))"
proof -
  show posted: "\<exists>evs. fst (run fuel repr post get (Some trigger) p) = Post trigger # evs"
    using assms by (simp add: run_def)
  show "snd (run fuel repr post get (Some trigger) p) \<noteq> Some (Inl (ValueError missing_message))"
    using posted rejected_without_trace [of fuel repr post get "Some trigger" p missing_message]
    by auto
  show "snd (run fuel repr post get (Some trigger) p) \<noteq> Some (Inl (ValueError invalid_message))"
    using posted rejected_without_trace [of fuel repr post get "Some trigger" p invalid_message]
    by auto
qed

subsection \<open>The small world\<close>

text \<open>
  The values the witnesses need.
\<close>

lemma rmatch_example: "rmatch pattern example_trigger = Some [''abc123'', ''42'']"
  by (simp add: pattern_def lits_def example_trigger_def)

lemma str_int_94: "str_int 94 = ''94''"
  by (simp add: str_int_def str_nat.simps)

lemma polled_example:
  "polled_status (example_get 0 example_status_url) = Some (JString ''working'')"
  "polled_status (example_get (Suc 0) example_status_url) = Some (JString ''working'')"
  "polled_status (example_get 2 example_status_url) = Some (JString ''completed'')"
  "polled_data (example_get 2 example_status_url) =
     Some (JObject [(''status'', JString ''completed''), (''records_processed'', JInt 10)])"
  by (simp_all add: polled_status_def polled_data_def example_get_def working_response_def
        completed_response_def)

lemma triggered_example: "triggered_run_id (ok_post url) = Some (JInt 94)"
  by (simp add: triggered_run_id_def ok_post_def)

lemma rmatch_other_host: "rmatch pattern other_host_trigger = Some [''abc123'', ''42'']"
  by (simp add: pattern_def lits_def other_host_trigger_def)



lemma example_polling:
  "poll_loop 3 example_get 60 example_status_url log sid 0 =
     ([Sleep 60, Get example_status_url, Info (Still_running sid),
       Sleep 60, Get example_status_url, Info (Still_running sid),
       Sleep 60, Get example_status_url, Info (Finished sid), Info (View_details log)],
      Some (Inr (JObject [(''status'', JString ''completed''), (''records_processed'', JInt 10)])))"
  by (simp add: numeral_3_eq_3 example_get_def working_response_def completed_response_def)

lemma example_run:
  assumes "trigger \<noteq> []" and "rmatch pattern trigger = Some [''abc123'', sync_id]"
  shows "run 3 no_repr ok_post example_get (Some trigger) None =
     ([Post trigger, Info (Started sync_id 60),
       Sleep 60, Get example_status_url, Info (Still_running sync_id),
       Sleep 60, Get example_status_url, Info (Still_running sync_id),
       Sleep 60, Get example_status_url, Info (Finished sync_id),
       Info (View_details (''https://app.getcensus.com/syncs/'' @ sync_id @ ''/sync-history''))],
      Some (Inr (JObject [(''status'', JString ''completed''), (''records_processed'', JInt 10)])))"
proof -
  have ok: "status_code (ok_post trigger) = 200"
    and body: "json (ok_post trigger) =
      Some (JObject [(''status'', JString ''success''),
                     (''data'', JObject [(''sync_run_id'', JInt 94)])])"
    by (simp_all add: ok_post_def)
  have url: "''https://bearer:secret-token:'' @ ''abc123'' @
      ''@app.getcensus.com/api/v1/sync_runs/'' @ py_str no_repr (JInt 94) = example_status_url"
    by (simp add: example_status_url_def str_int_94)
  show ?thesis
    unfolding run_validated [where post = ok_post, OF assms ok body, of "JObject [(''sync_run_id'', JInt 94)]" "JInt 94", simplified]
    by (simp add: url [simplified] MIN_WAIT_TIME_def DEFAULT_WAIT_TIME_def example_polling
          del: poll_loop.simps)
qed

lemma triggered_string_id: "triggered_run_id (string_id_post url) = Some (JString ''r9'')"
  by (simp add: triggered_run_id_def string_id_post_def)

section \<open>The claims\<close>

text \<open>
  C1.  When the trigger phase succeeds and the first poll response whose status is not
  \<open>working\<close> is the \<open>k\<close>-th, then with fuel for \<open>k\<close> iterations \<open>run\<close> sends exactly \<open>k\<close>
  GET requests, leaves the loop after the \<open>k\<close>-th and returns the \<open>data\<close> member of the
  \<open>k\<close>-th response as it is.  The whole trace is given: the POST, then \<open>k - 1\<close> rounds of
  sleep, GET and progress line, then the last sleep and GET and the two closing log lines.
\<close>

theorem poll_until_terminal_status:
  assumes "trigger \<noteq> []" and "rmatch pattern trigger = Some [secret, sync_id]"
    and "status_code (post trigger) = 200" and "triggered_run_id (post trigger) = Some rid"
    and "sr_url = ''https://bearer:secret-token:'' @ secret @
           ''@app.getcensus.com/api/v1/sync_runs/'' @ py_str repr rid"
    and "0 < k"
    and "\<forall>i. Suc i < k \<longrightarrow> polled_status (get i sr_url) = Some (JString ''working'')"
    and "polled_status (get (k - 1) sr_url) = Some status"
    and "status \<noteq> JString ''working''"
    and "k \<le> fuel"
  shows "\<exists>result sleep_time log_url.
           polled_data (get (k - 1) sr_url) = Some result \<and>
           run fuel repr post get (Some trigger) p =
             ([Post trigger, Info (Started sync_id sleep_time)] @
              concat (replicate (k - 1) [Sleep sleep_time, Get sr_url, Info (Still_running sync_id)]) @
              [Sleep sleep_time, Get sr_url, Info (Finished sync_id), Info (View_details log_url)],
              Some (Inr result)) \<and>
           filter is_Get (fst (run fuel repr post get (Some trigger) p)) = replicate k (Get sr_url)"
proof -
  define sleep_time where
    "sleep_time = max MIN_WAIT_TIME (case p of None \<Rightarrow> DEFAULT_WAIT_TIME | Some n \<Rightarrow> n)"
  define log_url where "log_url = ''https://app.getcensus.com/syncs/'' @ sync_id @ ''/sync-history''"
  from polled_statusD [OF assms(8)] obtain result where
    result: "polled_data (get (k - 1) sr_url) = Some result"
    by blast
  from triggered_run_id_SomeD [OF assms(4)] obtain body data where
    body: "json (post trigger) = Some body" "getitem body ''data'' = Inr data"
      "getitem data ''sync_run_id'' = Inr rid"
    by blast
  have loop: "poll_loop fuel get sleep_time sr_url log_url sync_id 0 =
      (concat (replicate (k - 1) [Sleep sleep_time, Get sr_url, Info (Still_running sync_id)]) @
         [Sleep sleep_time, Get sr_url, Info (Finished sync_id), Info (View_details log_url)],
       Some (Inr result))"
  proof (rule poll_loop_until_terminal [where st = status])
    show "polled_status (get (0 + i) sr_url) = Some (JString ''working'')" if "i < k - 1" for i
      using assms(7) that by simp
    show "polled_status (get (0 + (k - 1)) sr_url) = Some status" using assms(8) by simp
    show "status \<noteq> JString ''working''" by fact
    show "polled_data (get (0 + (k - 1)) sr_url) = Some result" using result by simp
    show "k - 1 < fuel" using assms(6,10) by simp
  qed
  have run: "run fuel repr post get (Some trigger) p =
      ([Post trigger, Info (Started sync_id sleep_time)] @
       concat (replicate (k - 1) [Sleep sleep_time, Get sr_url, Info (Still_running sync_id)]) @
       [Sleep sleep_time, Get sr_url, Info (Finished sync_id), Info (View_details log_url)],
       Some (Inr result))"
    unfolding run_validated [where post = post, OF assms(1-3) body]
    using loop unfolding sleep_time_def log_url_def assms(5) by simp
  have "filter is_Get (fst (run fuel repr post get (Some trigger) p)) =
          replicate (k - 1) (Get sr_url) @ [Get sr_url]"
    unfolding run by (simp add: filter_Get_polls) (simp add: is_Get_def)
  also have "\<dots> = replicate k (Get sr_url)"
    using assms(6) by (cases k) (simp_all add: replicate_append_same)
  finally show ?thesis using result run by blast
qed

theorem poll_until_terminal_status_witness:
  "polled_status (example_get 0 example_status_url) = Some (JString ''working'') \<and>
   polled_status (example_get 1 example_status_url) = Some (JString ''working'') \<and>
   polled_status (example_get (3 - 1) example_status_url) = Some (JString ''completed'') \<and>
   run 3 no_repr ok_post example_get (Some example_trigger) None =
     ([Post example_trigger, Info (Started ''42'' 60),
       Sleep 60, Get example_status_url, Info (Still_running ''42''),
       Sleep 60, Get example_status_url, Info (Still_running ''42''),
       Sleep 60, Get example_status_url, Info (Finished ''42''),
       Info (View_details ''https://app.getcensus.com/syncs/42/sync-history'')],
      Some (Inr (JObject [(''status'', JString ''completed''), (''records_processed'', JInt 10)]))) \<and>
   filter is_Get (fst (run 3 no_repr ok_post example_get (Some example_trigger) None)) =
     replicate 3 (Get example_status_url)"
proof -
  have nonempty: "example_trigger \<noteq> []" by (simp add: example_trigger_def)
  have ok: "status_code (ok_post example_trigger) = 200" by (simp add: ok_post_def)
  have url: "example_status_url = ''https://bearer:secret-token:'' @ ''abc123'' @
           ''@app.getcensus.com/api/v1/sync_runs/'' @ py_str no_repr (JInt 94)"
    by (simp add: example_status_url_def str_int_94)
  have working: "\<forall>i. Suc i < 3 \<longrightarrow>
      polled_status (example_get i example_status_url) = Some (JString ''working'')"
  proof (intro allI impI)
    fix i :: nat assume "Suc i < 3"
    then have "i = 0 \<or> i = Suc 0" by auto
    then show "polled_status (example_get i example_status_url) = Some (JString ''working'')"
      using polled_example(1,2) by auto
  qed
  have terminal: "polled_status (example_get (3 - 1) example_status_url) = Some (JString ''completed'')"
    using polled_example(3) by simp
  have other: "JString ''completed'' \<noteq> JString ''working''" by simp
  from poll_until_terminal_status [where post = ok_post and get = example_get and fuel = 3
      and p = None, OF nonempty rmatch_example ok triggered_example url _ working terminal other]
  obtain result sleep_time log_url where
    "polled_data (example_get (3 - 1) example_status_url) = Some result"
    "run 3 no_repr ok_post example_get (Some example_trigger) None =
       ([Post example_trigger, Info (Started ''42'' sleep_time)] @
        concat (replicate (3 - 1) [Sleep sleep_time, Get example_status_url, Info (Still_running ''42'')]) @
        [Sleep sleep_time, Get example_status_url, Info (Finished ''42''), Info (View_details log_url)],
        Some (Inr result))"
    "filter is_Get (fst (run 3 no_repr ok_post example_get (Some example_trigger) None)) =
       replicate 3 (Get example_status_url)"
    by auto
  moreover have "run 3 no_repr ok_post example_get (Some example_trigger) None =
     ([Post example_trigger, Info (Started ''42'' 60),
       Sleep 60, Get example_status_url, Info (Still_running ''42''),
       Sleep 60, Get example_status_url, Info (Still_running ''42''),
       Sleep 60, Get example_status_url, Info (Finished ''42''),
       Info (View_details ''https://app.getcensus.com/syncs/42/sync-history'')],
      Some (Inr (JObject [(''status'', JString ''completed''), (''records_processed'', JInt 10)])))"
    by (simp add: run_def rmatch_example Let_def nonempty ok triggered_example
          MIN_WAIT_TIME_def DEFAULT_WAIT_TIME_def)
       (simp add: ok_post_def str_int_94 example_status_url_def [symmetric] numeral_3_eq_3
          example_get_def working_response_def completed_response_def)
  ultimately show ?thesis using polled_example(1,2) terminal by simp
qed

text \<open>
  C2.  When the response to the POST has a status code other than 200, \<open>run\<close> raises the
  \<open>ValueError\<close> of line 78, whose message holds the status code and the text of the
  response as they are, and the trace is the POST alone: no GET is sent.  The status code
  stands in the message as its decimal numeral, which reads back as the status code.
\<close>

theorem trigger_failure_raises:
  assumes "trigger \<noteq> []" and "rmatch pattern trigger \<noteq> None"
    and "status_code (post trigger) \<noteq> 200"
  shows "run fuel repr post get (Some trigger) p =
           ([Post trigger],
            Some (Inl (ValueError
              (''Sent POST, failed with status code '' @ str_int (status_code (post trigger)) @
               '': '' @ body_text (post trigger) @ ''.'')))) \<and>
         filter is_Get (fst (run fuel repr post get (Some trigger) p)) = [] \<and>
         read_int (str_int (status_code (post trigger))) = Some (status_code (post trigger))"
proof -
  from assms(2) obtain gs where "rmatch pattern trigger = Some gs" by auto
  with pattern_sound [OF this] obtain secret sync_id where
    "rmatch pattern trigger = Some [secret, sync_id]" by auto
  from run_post_failed [where post = post, OF assms(1) this assms(3)]
  show ?thesis by (simp add: post_failed_message_def is_Get_def read_int_str_int)
qed

theorem trigger_failure_raises_witness:
  "example_trigger \<noteq> [] \<and> rmatch pattern example_trigger \<noteq> None \<and>
   status_code (unavailable_post example_trigger) \<noteq> 200 \<and>
   status_code (missing_post example_trigger) \<noteq> 200 \<and>
   run 3 no_repr unavailable_post example_get (Some example_trigger) None =
     ([Post example_trigger],
      Some (Inl (ValueError ''Sent POST, failed with status code 503: Service Unavailable.''))) \<and>
   run 3 no_repr missing_post example_get (Some example_trigger) None =
     ([Post example_trigger],
      Some (Inl (ValueError ''Sent POST, failed with status code 404: Not Found.''))) \<and>
   read_int ''503'' = Some 503 \<and> read_int ''404'' = Some 404"
proof -
  have nonempty: "example_trigger \<noteq> []" by (simp add: example_trigger_def)
  have matched: "rmatch pattern example_trigger \<noteq> None" by (simp add: rmatch_example)
  have failed: "status_code (unavailable_post example_trigger) \<noteq> 200"
    by (simp add: unavailable_post_def)
  have missing: "status_code (missing_post example_trigger) \<noteq> 200"
    by (simp add: missing_post_def)
  have codes: "str_int 503 = ''503''" "str_int 404 = ''404''"
    by (simp_all add: str_int_def str_nat.simps)
  from trigger_failure_raises [where post = unavailable_post, OF nonempty matched failed,
      of 3 no_repr example_get None]
    trigger_failure_raises [where post = missing_post, OF nonempty matched missing,
      of 3 no_repr example_get None]
  show ?thesis using nonempty matched failed missing codes
    by (simp add: unavailable_post_def missing_post_def)
qed

text \<open>
  C3.  The claim is that every poll response with a status code other than 200 makes
  \<open>run\<close> raise the error that points to the log URL.  Line 96 calls \<open>json()\<close> before line 97
  looks at the status code, so a 502 response with an HTML body ends the task with the
  decoder's error instead.
\<close>

theorem poll_error_body_not_json:
  "run 3 no_repr ok_post (\<lambda>n url. bad_gateway_response) (Some example_trigger) None =
     ([Post example_trigger, Info (Started ''42'' 60), Sleep 60, Get example_status_url],
      Some (Inl JSONDecodeError))"
  by (simp add: run_def rmatch_example Let_def MIN_WAIT_TIME_def DEFAULT_WAIT_TIME_def
        numeral_3_eq_3)
     (simp add: example_trigger_def ok_post_def str_int_94 example_status_url_def
        bad_gateway_response_def)




text \<open>
  C5.  Every sleep of \<open>run\<close> lasts \<open>max(5, poll_status_every_n_seconds)\<close> seconds: 5 when
  the argument is at most 5, the argument itself when it is greater, and 60 when the
  caller leaves the argument out.
\<close>

theorem sleep_interval_is_clamped:
  assumes "Sleep t \<in> set (fst (run fuel repr post get a p))"
  shows "t = max 5 (case p of None \<Rightarrow> 60 | Some n \<Rightarrow> n) \<and>
         (\<forall>n. p = Some n \<and> n \<le> 5 \<longrightarrow> t = 5) \<and>
         (\<forall>n. p = Some n \<and> 5 < n \<longrightarrow> t = n) \<and>
         (p = None \<longrightarrow> t = 60)"
  using run_sleeps [OF assms]
  by (cases p) (auto simp: MIN_WAIT_TIME_def DEFAULT_WAIT_TIME_def)

theorem sleep_interval_is_clamped_witness:
  "Sleep 5 \<in> set (fst (run 3 no_repr ok_post example_get (Some example_trigger) (Some 3))) \<and>
   Sleep 60 \<in> set (fst (run 3 no_repr ok_post example_get (Some example_trigger) None)) \<and>
   (5::int) = max 5 3 \<and> (60::int) = max 5 60"
proof -
  have a: "Sleep 5 \<in> set (fst (run 3 no_repr ok_post example_get (Some example_trigger) (Some 3)))"
    by (simp add: run_def rmatch_example [unfolded example_trigger_def] example_trigger_def
          ok_post_def Let_def MIN_WAIT_TIME_def DEFAULT_WAIT_TIME_def numeral_3_eq_3)
  have b: "Sleep 60 \<in> set (fst (run 3 no_repr ok_post example_get (Some example_trigger) None))"
    by (simp add: run_def rmatch_example [unfolded example_trigger_def] example_trigger_def
          ok_post_def Let_def MIN_WAIT_TIME_def DEFAULT_WAIT_TIME_def numeral_3_eq_3)
  from sleep_interval_is_clamped [OF a] sleep_interval_is_clamped [OF b] a b
  show ?thesis by simp
qed

text \<open>
  C6.  When \<open>api_trigger\<close> is \<open>None\<close> or the empty string, \<open>run\<close> raises the \<open>ValueError\<close> of
  line 56, and nothing is sent.
\<close>

theorem absent_or_empty_endpoint_rejected:
  "run fuel repr post get None p = ([], Some (Inl (ValueError missing_message))) \<and>
   run fuel repr post get (Some []) p = ([], Some (Inl (ValueError missing_message)))"
  by (simp add: run_def)

text \<open>
  C7.  Whenever \<open>run\<close> ends with one of the two errors about \<open>api_trigger\<close> (lines 56 and
  68), its trace is empty: no request was sent, nothing was logged, no sleep happened.
\<close>

theorem configuration_error_before_any_request:
  assumes "snd (run fuel repr post get a p) = Some (Inl (ValueError m))"
    and "m = missing_message \<or> m = invalid_message"
  shows "fst (run fuel repr post get a p) = []"
  using assms by (rule rejected_without_trace)

theorem configuration_error_before_any_request_witness:
  "snd (run 3 no_repr ok_post example_get (Some ''http://app.getcensus.com'') None) =
     Some (Inl (ValueError invalid_message)) \<and>
   (invalid_message = missing_message \<or> invalid_message = invalid_message) \<and>
   fst (run 3 no_repr ok_post example_get (Some ''http://app.getcensus.com'') None) = []"
proof -
  have r: "snd (run 3 no_repr ok_post example_get (Some ''http://app.getcensus.com'') None) =
     Some (Inl (ValueError invalid_message))"
    by (simp add: run_def pattern_def lits_def)
  from configuration_error_before_any_request [OF r] r show ?thesis by simp
qed

text \<open>
  C8.  When the response to the POST has status code 200 and a JSON body without a run
  id under \<open>data\<close> and \<open>sync_run_id\<close>, \<open>run\<close> ends at line 86 with a \<open>KeyError\<close> or a
  \<open>TypeError\<close>, not with a \<open>ValueError\<close> of its own; the POST and the first log line are all
  that happened.
\<close>

theorem missing_run_id_is_lookup_failure:
  assumes "trigger \<noteq> []" and "rmatch pattern trigger = Some [secret, sync_id]"
    and "status_code (post trigger) = 200" and "json (post trigger) = Some body"
    and "triggered_run_id (post trigger) = None"
  shows "\<exists>e. run fuel repr post get (Some trigger) p =
           ([Post trigger,
             Info (Started sync_id
               (max MIN_WAIT_TIME (case p of None \<Rightarrow> DEFAULT_WAIT_TIME | Some n \<Rightarrow> n)))],
            Some (Inl e)) \<and>
           (e = KeyError ''data'' \<or> e = KeyError ''sync_run_id'' \<or> e = TypeError) \<and>
           (\<forall>m. e \<noteq> ValueError m)"
  using run_lookup_failed [where post = post, OF assms, of fuel repr get p] by auto

theorem missing_run_id_is_lookup_failure_witness:
  "example_trigger \<noteq> [] \<and> rmatch pattern example_trigger = Some [''abc123'', ''42''] \<and>
   status_code (no_id_post example_trigger) = 200 \<and>
   json (no_id_post example_trigger) =
     Some (JObject [(''status'', JString ''success''), (''data'', JObject [])]) \<and>
   triggered_run_id (no_id_post example_trigger) = None \<and>
   run 3 no_repr no_id_post example_get (Some example_trigger) None =
     ([Post example_trigger, Info (Started ''42'' 60)], Some (Inl (KeyError ''sync_run_id'')))"
proof -
  have nonempty: "example_trigger \<noteq> []" by (simp add: example_trigger_def)
  have ok: "status_code (no_id_post example_trigger) = 200" by (simp add: no_id_post_def)
  have body: "json (no_id_post example_trigger) =
     Some (JObject [(''status'', JString ''success''), (''data'', JObject [])])"
    by (simp add: no_id_post_def)
  have no_id: "triggered_run_id (no_id_post example_trigger) = None"
    by (simp add: triggered_run_id_def no_id_post_def)
  from missing_run_id_is_lookup_failure [where post = no_id_post,
      OF nonempty rmatch_example ok body no_id, of 3 no_repr example_get None]
  obtain e where
    e: "run 3 no_repr no_id_post example_get (Some example_trigger) None =
          ([Post example_trigger,
            Info (Started ''42'' (max MIN_WAIT_TIME DEFAULT_WAIT_TIME))], Some (Inl e))"
    by auto
  have "run 3 no_repr no_id_post example_get (Some example_trigger) None =
     ([Post example_trigger, Info (Started ''42'' 60)], Some (Inl (KeyError ''sync_run_id'')))"
    by (simp add: run_def rmatch_example Let_def nonempty MIN_WAIT_TIME_def
          DEFAULT_WAIT_TIME_def no_id_post_def)
  with e nonempty ok body no_id rmatch_example show ?thesis by simp
qed

text \<open>
  C9.  When the trigger phase succeeds, the secret that the pattern captured stands in
  the trigger right after \<open>https://bearer:secret-token:\<close>, and every GET goes to
  \<open>https://bearer:secret-token:<secret>@app.getcensus.com/api/v1/sync_runs/<run id>\<close>; with
  fuel for one iteration there is such a GET.  A run id that is a string stands there as
  it is, and one that is an integer as its decimal numeral.  The host is always
  \<open>app.getcensus.com\<close>; the host of the trigger is \<open>app\<close>, one character, \<open>getcensus\<close>, one
  character, \<open>com\<close>, so it is the same host when those two characters are dots.
\<close>

theorem status_url_reuses_secret:
  assumes "trigger \<noteq> []" and "rmatch pattern trigger = Some [secret, sync_id]"
    and "status_code (post trigger) = 200" and "triggered_run_id (post trigger) = Some rid"
    and "0 < fuel"
  shows "(\<exists>rest. trigger = ''https://bearer:secret-token:'' @ secret @ ''@'' @ rest) \<and>
         Get (''https://bearer:secret-token:'' @ secret @
              ''@app.getcensus.com/api/v1/sync_runs/'' @ py_str repr rid)
           \<in> set (fst (run fuel repr post get (Some trigger) p)) \<and>
         (\<forall>u. Get u \<in> set (fst (run fuel repr post get (Some trigger) p)) \<longrightarrow>
            u = ''https://bearer:secret-token:'' @ secret @
                ''@app.getcensus.com/api/v1/sync_runs/'' @ py_str repr rid) \<and>
         (\<forall>s. rid = JString s \<longrightarrow>
            filter is_Get (fst (run fuel repr post get (Some trigger) p)) \<noteq> [] \<and>
            (\<forall>u. Get u \<in> set (fst (run fuel repr post get (Some trigger) p)) \<longrightarrow>
               u = ''https://bearer:secret-token:'' @ secret @
                   ''@app.getcensus.com/api/v1/sync_runs/'' @ s)) \<and>
         (\<forall>i. rid = JInt i \<longrightarrow>
            (\<exists>digits. read_int digits = Some i \<and>
               filter is_Get (fst (run fuel repr post get (Some trigger) p)) \<noteq> [] \<and>
               (\<forall>u. Get u \<in> set (fst (run fuel repr post get (Some trigger) p)) \<longrightarrow>
                  u = ''https://bearer:secret-token:'' @ secret @
                      ''@app.getcensus.com/api/v1/sync_runs/'' @ digits))) \<and>
         (\<exists>c1 c2 rest.
            trigger = ''https://bearer:secret-token:'' @ secret @ ''@app'' @ [c1] @
              ''getcensus'' @ [c2] @ ''com/api/v1/syncs/'' @ sync_id @ ''/trigger'' @ rest)"
proof -
  from pattern_sound [OF assms(2)] have shaped: "trigger_shaped trigger secret sync_id" by simp
  then have host: "\<exists>c1 c2 rest.
      trigger = ''https://bearer:secret-token:'' @ secret @ ''@app'' @ [c1] @
        ''getcensus'' @ [c2] @ ''com/api/v1/syncs/'' @ sync_id @ ''/trigger'' @ rest"
    unfolding trigger_shaped_def by blast
  from shaped have embedded:
    "\<exists>rest. trigger = ''https://bearer:secret-token:'' @ secret @ ''@'' @ rest"
    unfolding trigger_shaped_def by auto
  from triggered_run_id_SomeD [OF assms(4)] obtain body data where
    body: "json (post trigger) = Some body" "getitem body ''data'' = Inr data"
      "getitem data ''sync_run_id'' = Inr rid"
    by blast
  note run = run_validated [where post = post, OF assms(1-3) body, of fuel repr get p]
  from assms(5) obtain f where f: "fuel = Suc f" by (cases fuel) auto
  have first: "Get (''https://bearer:secret-token:'' @ secret @
              ''@app.getcensus.com/api/v1/sync_runs/'' @ py_str repr rid)
           \<in> set (fst (run fuel repr post get (Some trigger) p))"
    by (subst run) (simp add: f)
  have "is_Get (Get (''https://bearer:secret-token:'' @ secret @
      ''@app.getcensus.com/api/v1/sync_runs/'' @ py_str repr rid))"
    by (simp add: is_Get_def)
  with first have some: "filter is_Get (fst (run fuel repr post get (Some trigger) p)) \<noteq> []"
    unfolding filter_empty_conv by blast
  have only: "u = ''https://bearer:secret-token:'' @ secret @
                ''@app.getcensus.com/api/v1/sync_runs/'' @ py_str repr rid"
    if "Get u \<in> set (fst (run fuel repr post get (Some trigger) p))" for u
  proof -
    from that have "Get u \<in> set (fst (poll_loop fuel get
        (max MIN_WAIT_TIME (case p of None \<Rightarrow> DEFAULT_WAIT_TIME | Some n \<Rightarrow> n))
        (''https://bearer:secret-token:'' @ secret @
           ''@app.getcensus.com/api/v1/sync_runs/'' @ py_str repr rid)
        (''https://app.getcensus.com/syncs/'' @ sync_id @ ''/sync-history'') sync_id 0))"
      unfolding run by simp
    from poll_loop_events [OF this] show ?thesis by simp
  qed
  have string: "\<forall>s. rid = JString s \<longrightarrow>
            filter is_Get (fst (run fuel repr post get (Some trigger) p)) \<noteq> [] \<and>
            (\<forall>u. Get u \<in> set (fst (run fuel repr post get (Some trigger) p)) \<longrightarrow>
               u = ''https://bearer:secret-token:'' @ secret @
                   ''@app.getcensus.com/api/v1/sync_runs/'' @ s)"
    using some only by auto
  have integer: "\<forall>i. rid = JInt i \<longrightarrow>
            (\<exists>digits. read_int digits = Some i \<and>
               filter is_Get (fst (run fuel repr post get (Some trigger) p)) \<noteq> [] \<and>
               (\<forall>u. Get u \<in> set (fst (run fuel repr post get (Some trigger) p)) \<longrightarrow>
                  u = ''https://bearer:secret-token:'' @ secret @
                      ''@app.getcensus.com/api/v1/sync_runs/'' @ digits))"
  proof (intro allI impI)
    fix i assume "rid = JInt i"
    with some only read_int_str_int [of i]
    show "\<exists>digits. read_int digits = Some i \<and>
               filter is_Get (fst (run fuel repr post get (Some trigger) p)) \<noteq> [] \<and>
               (\<forall>u. Get u \<in> set (fst (run fuel repr post get (Some trigger) p)) \<longrightarrow>
                  u = ''https://bearer:secret-token:'' @ secret @
                      ''@app.getcensus.com/api/v1/sync_runs/'' @ digits)"
      by (intro exI [of _ "str_int i"]) auto
  qed
  from embedded first only string integer host show ?thesis by blast
qed

theorem status_url_reuses_secret_witness:
  "example_trigger \<noteq> [] \<and> rmatch pattern example_trigger = Some [''abc123'', ''42''] \<and>
   status_code (ok_post example_trigger) = 200 \<and>
   triggered_run_id (ok_post example_trigger) = Some (JInt 94) \<and> (0::nat) < 3 \<and>
   read_int ''94'' = Some 94 \<and>
   filter is_Get (fst (run 3 no_repr ok_post example_get (Some example_trigger) None)) =
     replicate 3 (Get ''https://bearer:secret-token:abc123@app.getcensus.com/api/v1/sync_runs/94'') \<and>
   status_code (string_id_post example_trigger) = 200 \<and>
   triggered_run_id (string_id_post example_trigger) = Some (JString ''r9'') \<and>
   filter is_Get (fst (run 3 no_repr string_id_post example_get (Some example_trigger) None)) =
     [Get ''https://bearer:secret-token:abc123@app.getcensus.com/api/v1/sync_runs/r9''] \<and>
   other_host_trigger \<noteq> [] \<and> rmatch pattern other_host_trigger = Some [''abc123'', ''42''] \<and>
   status_code (ok_post other_host_trigger) = 200 \<and>
   triggered_run_id (ok_post other_host_trigger) = Some (JInt 94) \<and>
   filter is_Get (fst (run 3 no_repr ok_post example_get (Some other_host_trigger) None)) =
     replicate 3 (Get ''https://bearer:secret-token:abc123@app.getcensus.com/api/v1/sync_runs/94'')"
proof -
  have nonempty: "example_trigger \<noteq> []" by (simp add: example_trigger_def)
  have nonempty': "other_host_trigger \<noteq> []" by (simp add: other_host_trigger_def)
  have ok: "status_code (ok_post url) = 200" for url by (simp add: ok_post_def)
  have ok': "status_code (string_id_post example_trigger) = 200" by (simp add: string_id_post_def)
  have fuel: "(0::nat) < 3" by simp
  have digits: "read_int ''94'' = Some 94"
    by (simp add: read_int_def read_nat_def digit_values_def)
  have a: "filter is_Get (fst (run 3 no_repr ok_post example_get (Some example_trigger) None)) =
     replicate 3 (Get ''https://bearer:secret-token:abc123@app.getcensus.com/api/v1/sync_runs/94'')"
    unfolding example_run [OF nonempty rmatch_example]
    by (simp add: is_Get_def example_status_url_def numeral_3_eq_3)
  have c: "filter is_Get (fst (run 3 no_repr ok_post example_get (Some other_host_trigger) None)) =
     replicate 3 (Get ''https://bearer:secret-token:abc123@app.getcensus.com/api/v1/sync_runs/94'')"
    unfolding example_run [OF nonempty' rmatch_other_host]
    by (simp add: is_Get_def example_status_url_def numeral_3_eq_3)
  have body: "json (string_id_post example_trigger) =
      Some (JObject [(''data'', JObject [(''sync_run_id'', JString ''r9'')])])"
    by (simp add: string_id_post_def)
  have b: "filter is_Get (fst (run 3 no_repr string_id_post example_get (Some example_trigger) None)) =
     [Get ''https://bearer:secret-token:abc123@app.getcensus.com/api/v1/sync_runs/r9'']"
    unfolding run_validated [where post = string_id_post, OF nonempty rmatch_example ok' body,
        of "JObject [(''sync_run_id'', JString ''r9'')]" "JString ''r9''", simplified]
    by (simp add: numeral_3_eq_3 is_Get_def example_get_def example_status_url_def
          not_found_response_def)
  from status_url_reuses_secret [where post = ok_post, OF nonempty rmatch_example ok
      triggered_example fuel, of no_repr example_get None]
    status_url_reuses_secret [where post = string_id_post, OF nonempty rmatch_example ok'
      triggered_string_id fuel, of no_repr example_get None]
    status_url_reuses_secret [where post = ok_post, OF nonempty' rmatch_other_host ok
      triggered_example fuel, of no_repr example_get None]
  show ?thesis
    using nonempty nonempty' rmatch_example rmatch_other_host ok ok' triggered_example
      triggered_string_id digits a b c
    by simp
qed

text \<open>
  C10.  The validation accepts a well-formed trigger followed by further characters, a
  trigger with an empty secret and a trigger with an empty sync id: in each case the
  pattern matches, the error of line 68 is not raised, and the POST goes to the string as
  it was given.
\<close>

theorem validation_is_lenient:
  "trailing_trigger = example_trigger @ ''/and?more=1'' \<and>
   rmatch pattern trailing_trigger = Some [''abc123'', ''42''] \<and>
   (\<exists>evs. fst (run fuel repr post get (Some trailing_trigger) p) = Post trailing_trigger # evs) \<and>
   snd (run fuel repr post get (Some trailing_trigger) p)
     \<noteq> Some (Inl (ValueError invalid_message)) \<and>
   rmatch pattern empty_secret_trigger = Some ['''', ''42''] \<and>
   (\<exists>evs. fst (run fuel repr post get (Some empty_secret_trigger) p) =
      Post empty_secret_trigger # evs) \<and>
   snd (run fuel repr post get (Some empty_secret_trigger) p)
     \<noteq> Some (Inl (ValueError invalid_message)) \<and>
   rmatch pattern empty_id_trigger = Some [''abc123'', ''''] \<and>
   (\<exists>evs. fst (run fuel repr post get (Some empty_id_trigger) p) = Post empty_id_trigger # evs) \<and>
   snd (run fuel repr post get (Some empty_id_trigger) p)
     \<noteq> Some (Inl (ValueError invalid_message))"
proof -
  have a: "rmatch pattern trailing_trigger = Some [''abc123'', ''42'']"
    by (simp add: pattern_def lits_def trailing_trigger_def)
  have b: "rmatch pattern empty_secret_trigger = Some ['''', ''42'']"
    by (simp add: pattern_def lits_def empty_secret_trigger_def)
  have c: "rmatch pattern empty_id_trigger = Some [''abc123'', '''']"
    by (simp add: pattern_def lits_def empty_id_trigger_def)
  have a': "trailing_trigger \<noteq> []" by (simp add: trailing_trigger_def)
  have b': "empty_secret_trigger \<noteq> []" by (simp add: empty_secret_trigger_def)
  have c': "empty_id_trigger \<noteq> []" by (simp add: empty_id_trigger_def)
  have "trailing_trigger = example_trigger @ ''/and?more=1''"
    by (simp add: trailing_trigger_def example_trigger_def)
  with a b c accepted_trigger(1,3) [OF a' a, of fuel repr post get p]
    accepted_trigger(1,3) [OF b' b, of fuel repr post get p]
    accepted_trigger(1,3) [OF c' c, of fuel repr post get p]
  show ?thesis by simp
qed

end
